theory Spec2Isabelle
  imports Main
begin

section \<open>Python strings and integers\<close>

text \<open>
  A Python \<open>str\<close> is a sequence of code points. The model uses \<^typ>\<open>string\<close>, one
  \<^typ>\<open>char\<close> per code point, so it covers the strings whose code points are below 256
  (Latin-1); \<^term>\<open>of_char c\<close> is the code point. The character classes below are the ones
  that \<open>re\<close> and \<open>str\<close> use on \<open>str\<close> values, restricted to that range. Python integers
  are unbounded: \<^typ>\<open>int\<close>. (CPython's limit of 4300 digits on the conversion between
  integers and decimal strings is not modelled.)
\<close>

definition code_point :: "char \<Rightarrow> nat" where
  "code_point c = of_char c"

definition newline :: char where
  "newline = CHR 0x0A"

definition re_digit :: "char \<Rightarrow> bool" where
  \<comment> \<open>the class \<open>\d\<close>: the decimal digits\<close>
  "re_digit c = (48 \<le> code_point c \<and> code_point c \<le> 57)"

definition re_dot :: "char \<Rightarrow> bool" where
  \<comment> \<open>\<open>.\<close> without the DOTALL flag: any character except a newline\<close>
  "re_dot c = (c \<noteq> newline)"

definition str_isalnum :: "char \<Rightarrow> bool" where
  "str_isalnum c =
     (let n = code_point c in
        (48 \<le> n \<and> n \<le> 57) \<or> (65 \<le> n \<and> n \<le> 90) \<or> (97 \<le> n \<and> n \<le> 122)
        \<or> n = 170 \<or> n = 178 \<or> n = 179 \<or> n = 181 \<or> n = 185 \<or> n = 186
        \<or> n = 188 \<or> n = 189 \<or> n = 190
        \<or> (192 \<le> n \<and> n \<le> 214) \<or> (216 \<le> n \<and> n \<le> 246) \<or> 248 \<le> n)"

definition re_word :: "char \<Rightarrow> bool" where
  \<comment> \<open>the class \<open>\w\<close>: alphanumeric or underscore\<close>
  "re_word c = (str_isalnum c \<or> c = CHR ''_'')"

definition str_isspace :: "char \<Rightarrow> bool" where
  \<comment> \<open>the characters that \<open>str.strip()\<close> removes\<close>
  "str_isspace c =
     (let n = code_point c in
        (9 \<le> n \<and> n \<le> 13) \<or> (28 \<le> n \<and> n \<le> 32) \<or> n = 133 \<or> n = 160)"

definition lower_char :: "char \<Rightarrow> char" where
  "lower_char c =
     (let n = code_point c in
        if (65 \<le> n \<and> n \<le> 90) \<or> (192 \<le> n \<and> n \<le> 214) \<or> (216 \<le> n \<and> n \<le> 222)
        then char_of (n + 32) else c)"

definition str_lower :: "string \<Rightarrow> string" where
  "str_lower s = map lower_char s"

definition str_strip :: "string \<Rightarrow> string" where
  "str_strip s = rev (dropWhile str_isspace (rev (dropWhile str_isspace s)))"

fun str_replace_char :: "char \<Rightarrow> string \<Rightarrow> string \<Rightarrow> string" where
  \<comment> \<open>\<open>s.replace(old, new)\<close> for a one-character \<open>old\<close>\<close>
  "str_replace_char old new [] = []"
| "str_replace_char old new (c # cs) =
     (if c = old then new @ str_replace_char old new cs
      else c # str_replace_char old new cs)"

definition startswith :: "string \<Rightarrow> string \<Rightarrow> bool" where
  "startswith s p = (take (length p) s = p)"

definition endswith :: "string \<Rightarrow> string \<Rightarrow> bool" where
  "endswith s p = (drop (length s - length p) s = p)"

subsection \<open>Decimal formatting and parsing\<close>

definition digit_char :: "nat \<Rightarrow> char" where
  "digit_char d = char_of (48 + d)"

fun digits_of_nat :: "nat \<Rightarrow> string" where
  "digits_of_nat n =
     (if n < 10 then [digit_char n]
      else digits_of_nat (n div 10) @ [digit_char (n mod 10)])"

declare digits_of_nat.simps [simp del]

definition format_int :: "int \<Rightarrow> string" where
  \<comment> \<open>\<open>f"{count}"\<close> for an integer\<close>
  "format_int i = (if i < 0 then CHR ''-'' # digits_of_nat (nat (- i)) else digits_of_nat (nat i))"

definition digit_val :: "char \<Rightarrow> int" where
  "digit_val c = int (code_point c - 48)"

definition int_of_digits :: "string \<Rightarrow> int" where
  \<comment> \<open>\<open>int(s)\<close> on a string of decimal digits, the only strings \<open>(\d+)\<close> captures\<close>
  "int_of_digits ds = foldl (\<lambda>a c. 10 * a + digit_val c) 0 ds"

section \<open>The search for the announcement pattern\<close>

text \<open>
  \<open>re.search(r"Shiny (.*) obtained in (\d+)", text)\<close>: the leftmost position where the
  pattern matches; there \<open>(.*)\<close> is greedy, so it takes the longest run of non-newline
  characters after which the rest of the pattern still matches, and \<open>(\d+)\<close> takes every
  digit that follows. The result is the pair of the two groups, \<open>None\<close> when no position
  matches.
\<close>

definition match_obtained_in :: "string \<Rightarrow> string option" where
  \<comment> \<open>the pattern's tail \<open> obtained in (\d+)\<close> at the head of \<open>s\<close>\<close>
  "match_obtained_in s =
     (if startswith s '' obtained in '' then
        (let ds = takeWhile re_digit (drop 13 s) in if ds = [] then None else Some ds)
      else None)"

fun match_dot_star :: "string \<Rightarrow> (string \<times> string) option" where
  \<comment> \<open>\<open>(.*)\<close> followed by the tail: first try to take one more character, then give it back\<close>
  "match_dot_star [] = map_option (Pair []) (match_obtained_in [])"
| "match_dot_star (c # cs) =
     (case (if re_dot c then match_dot_star cs else None) of
        Some (nm, ds) \<Rightarrow> Some (c # nm, ds)
      | None \<Rightarrow> map_option (Pair []) (match_obtained_in (c # cs)))"

definition match_at :: "string \<Rightarrow> (string \<times> string) option" where
  "match_at s = (if startswith s ''Shiny '' then match_dot_star (drop 6 s) else None)"

fun re_search :: "string \<Rightarrow> (string \<times> string) option" where
  "re_search [] = match_at []"
| "re_search (c # cs) =
     (case match_at (c # cs) of Some g \<Rightarrow> Some g | None \<Rightarrow> re_search cs)"

section \<open>PokemonTracker\<close>

text \<open>
  The three Tk variables hold the data; the widget options that \<open>lock_as_obtained\<close>
  changes are part of the state, because they decide which user actions still reach the
  methods. A \<open>ttk.Button\<close> whose state is \<open>disabled\<close> does not run its command, and a
  \<open>ttk.Entry\<close> whose state is \<open>readonly\<close> does not let the user edit its variable.
\<close>

datatype widget_state = Normal | Disabled | Readonly

record PokemonTracker =
  name_var :: string
  count_var :: int
  obtained_var :: bool
  name_entry_state :: widget_state
  btn_decrement_state :: widget_state
  btn_increment_state :: widget_state
  btn_got_it_state :: widget_state
  lbl_count_gridded :: bool
  frame_style :: string

text \<open>The dictionary of \<open>get_data\<close>, and a tracker record of a saved document: a key
  that is absent is \<open>None\<close>.\<close>

record tracker_data =
  name :: "string option"
  count :: "int option"
  obtained :: "bool option"

definition increment_count :: "PokemonTracker \<Rightarrow> PokemonTracker" where
  "increment_count t = t\<lparr>count_var := count_var t + 1\<rparr>"

definition decrement_count :: "PokemonTracker \<Rightarrow> PokemonTracker" where
  "decrement_count t =
     (let current_count = count_var t in
        if current_count > 0 then t\<lparr>count_var := current_count - 1\<rparr> else t)"

definition lock_as_obtained :: "PokemonTracker \<Rightarrow> PokemonTracker" where
  "lock_as_obtained t =
     (let nm = name_var t;
          cnt = count_var t;
          suffix = (if cnt = 1 then ''try'' else ''tries'');
          final_text = ''Shiny '' @ nm @ '' obtained in '' @ format_int cnt @ '' '' @ suffix @ ''!''
      in t\<lparr>name_var := final_text,
            name_entry_state := Readonly,
            btn_decrement_state := Disabled,
            btn_increment_state := Disabled,
            btn_got_it_state := Disabled,
            lbl_count_gridded := False,
            frame_style := ''Obtained.TFrame''\<rparr>)"

definition mark_obtained :: "PokemonTracker \<Rightarrow> PokemonTracker" where
  "mark_obtained t = lock_as_obtained (t\<lparr>obtained_var := True\<rparr>)"

definition PokemonTracker_init :: "string \<Rightarrow> int \<Rightarrow> bool \<Rightarrow> PokemonTracker" where
  "PokemonTracker_init nm cnt ob =
     (let t = \<lparr>name_var = nm, count_var = cnt, obtained_var = ob,
               name_entry_state = Normal,
               btn_decrement_state = Normal,
               btn_increment_state = Normal,
               btn_got_it_state = Normal,
               lbl_count_gridded = True,
               frame_style = []\<rparr>
      in if obtained_var t then lock_as_obtained t else t)"

definition get_data :: "PokemonTracker \<Rightarrow> tracker_data" where
  "get_data t =
     (if obtained_var t then
        (case re_search (name_var t) of
           Some (nm, ds) \<Rightarrow>
             \<lparr>name = Some nm, count = Some (int_of_digits ds), obtained = Some (obtained_var t)\<rparr>
         | None \<Rightarrow>
             \<lparr>name = Some ''Unknown'', count = Some (count_var t),
              obtained = Some (obtained_var t)\<rparr>)
      else
        \<lparr>name = Some (name_var t), count = Some (count_var t),
         obtained = Some (obtained_var t)\<rparr>)"

subsection \<open>User actions on a tracker\<close>

datatype action = ClickDecrement | ClickIncrement | ClickGotIt | EditName string

definition click :: "widget_state \<Rightarrow> (PokemonTracker \<Rightarrow> PokemonTracker) \<Rightarrow> PokemonTracker \<Rightarrow> PokemonTracker" where
  "click st command t = (if st = Disabled then t else command t)"

fun perform :: "action \<Rightarrow> PokemonTracker \<Rightarrow> PokemonTracker" where
  "perform ClickDecrement t = click (btn_decrement_state t) decrement_count t"
| "perform ClickIncrement t = click (btn_increment_state t) increment_count t"
| "perform ClickGotIt t = click (btn_got_it_state t) mark_obtained t"
| "perform (EditName s) t = (if name_entry_state t = Normal then t\<lparr>name_var := s\<rparr> else t)"

definition replay :: "action list \<Rightarrow> PokemonTracker \<Rightarrow> PokemonTracker" where
  "replay as t = foldl (\<lambda>t a. perform a t) t as"

text \<open>The counter operations alone, as the two methods.\<close>

datatype count_op = Increment | Decrement

fun apply_count_op :: "count_op \<Rightarrow> PokemonTracker \<Rightarrow> PokemonTracker" where
  "apply_count_op Increment t = increment_count t"
| "apply_count_op Decrement t = decrement_count t"

definition replay_count_ops :: "count_op list \<Rightarrow> PokemonTracker \<Rightarrow> PokemonTracker" where
  "replay_count_ops ops t = foldl (\<lambda>t op. apply_count_op op t) t ops"

text \<open>The specification's reading of a replay: each step adds or subtracts one and the
  result is clamped at zero.\<close>

fun step_delta :: "count_op \<Rightarrow> int" where
  "step_delta Increment = 1"
| "step_delta Decrement = - 1"

definition clamped_sum :: "int \<Rightarrow> count_op list \<Rightarrow> int" where
  "clamped_sum a ops = foldl (\<lambda>a op. max 0 (a + step_delta op)) a ops"

section \<open>The file name of a tab\<close>

definition unsafe_char :: "char \<Rightarrow> bool" where
  \<comment> \<open>the class \<open>[^\w\-_\. ]\<close>\<close>
  "unsafe_char c =
     (\<not> (re_word c \<or> c = CHR ''-'' \<or> c = CHR ''_'' \<or> c = CHR ''.'' \<or> c = CHR '' ''))"

fun re_sub_unsafe :: "string \<Rightarrow> string \<Rightarrow> string" where
  \<comment> \<open>\<open>re.sub(r'[^\w\-_\. ]', repl, s)\<close>: every match is one character\<close>
  "re_sub_unsafe repl [] = []"
| "re_sub_unsafe repl (c # cs) =
     (if unsafe_char c then repl @ re_sub_unsafe repl cs else c # re_sub_unsafe repl cs)"

definition safe_name :: "string \<Rightarrow> string" where
  "safe_name tab_name =
     (let safe_name = str_strip (re_sub_unsafe ''_'' tab_name)
      in str_replace_char (CHR '' '') ''_'' (str_lower safe_name))"

definition SAVE_DIRECTORY :: string where
  "SAVE_DIRECTORY = ''shiny_saves''"

definition os_path_join :: "string \<Rightarrow> string \<Rightarrow> string" where
  \<comment> \<open>\<open>os.path.join\<close> of two components, with the POSIX separator\<close>
  "os_path_join a b =
     (if startswith b ''/'' then b
      else if a = [] \<or> endswith a ''/'' then a @ b
      else a @ ''/'' @ b)"

definition get_filename_for_tab :: "string \<Rightarrow> string" where
  "get_filename_for_tab tab_name = os_path_join SAVE_DIRECTORY (safe_name tab_name @ ''.json'')"

text \<open>The transformation as the specification words it: replace, trim, lower-case,
  replace the spaces.\<close>

definition spec_replace_unsafe :: "char \<Rightarrow> char" where
  "spec_replace_unsafe c =
     (if str_isalnum c \<or> c = CHR ''_'' \<or> c = CHR ''-'' \<or> c = CHR ''.'' \<or> c = CHR '' ''
      then c else CHR ''_'')"

definition spec_trim :: "string \<Rightarrow> string" where
  "spec_trim s = dropWhile str_isspace (rev (dropWhile str_isspace (rev s)))"

definition spec_space_to_underscore :: "char \<Rightarrow> char" where
  "spec_space_to_underscore c = (if c = CHR '' '' then CHR ''_'' else c)"

definition spec_storage_key :: "string \<Rightarrow> string" where
  "spec_storage_key s =
     map spec_space_to_underscore (map lower_char (spec_trim (map spec_replace_unsafe s)))"

section \<open>PokemonTab\<close>

record PokemonTab =
  tab_name :: string
  trackers :: "PokemonTracker list"

text \<open>A saved document: the JSON object of one tab. A key that is absent is \<open>None\<close>;
  the values have the types of the persisted format (strings, integers, booleans).\<close>

record document =
  doc_tab_name :: "string option"
  doc_trackers :: "tracker_data list option"

definition PokemonTab_init :: "string \<Rightarrow> PokemonTab" where
  "PokemonTab_init nm = \<lparr>tab_name = nm, trackers = []\<rparr>"

definition add_tracker :: "string \<Rightarrow> int \<Rightarrow> bool \<Rightarrow> PokemonTab \<Rightarrow> PokemonTab" where
  "add_tracker nm cnt ob tab =
     (let tracker = PokemonTracker_init nm cnt ob
      in tab\<lparr>trackers := trackers tab @ [tracker]\<rparr>)"

definition tab_get_data :: "PokemonTab \<Rightarrow> document" where
  \<comment> \<open>\<open>PokemonTab.get_data\<close>\<close>
  "tab_get_data tab =
     (let tracker_data = map get_data (trackers tab)
      in \<lparr>doc_tab_name = Some (tab_name tab), doc_trackers = Some tracker_data\<rparr>)"

section \<open>App\<close>

text \<open>The notebook: its tabs in order and the index of the selected one.\<close>

record App =
  tabs :: "PokemonTab list"
  selected :: "nat option"

definition dict_get :: "'a option \<Rightarrow> 'a \<Rightarrow> 'a" where
  \<comment> \<open>\<open>d.get(key, default)\<close>, given the entry of \<open>key\<close>\<close>
  "dict_get entry dflt = (case entry of Some v \<Rightarrow> v | None \<Rightarrow> dflt)"

definition add_tracker_from :: "PokemonTab \<Rightarrow> tracker_data \<Rightarrow> PokemonTab" where
  \<comment> \<open>the body of the loop of \<open>_create_and_add_tab\<close>\<close>
  "add_tracker_from tab tracker_data =
     add_tracker (dict_get (name tracker_data) ''Error'')
                 (dict_get (count tracker_data) 0)
                 (dict_get (obtained tracker_data) False) tab"

definition create_and_add_tab :: "string \<Rightarrow> document option \<Rightarrow> App \<Rightarrow> PokemonTab \<times> App" where
  \<comment> \<open>\<open>data\<close> is \<open>None\<close> when the caller passes no document; an empty object has no
     \<open>trackers\<close> key either, so \<open>data and "trackers" in data\<close> is the presence of the key\<close>
  "create_and_add_tab nm data app =
     (let tab = PokemonTab_init nm;
          tab = (case data of
                   None \<Rightarrow> tab
                 | Some d \<Rightarrow>
                     (case doc_trackers d of
                        None \<Rightarrow> tab
                      | Some rs \<Rightarrow> foldl add_tracker_from tab rs))
      in (tab, app\<lparr>tabs := tabs app @ [tab], selected := Some (length (tabs app))\<rparr>))"

fun index_of_tab :: "string \<Rightarrow> PokemonTab list \<Rightarrow> nat option" where
  \<comment> \<open>the first open tab with this name\<close>
  "index_of_tab nm [] = None"
| "index_of_tab nm (tab # rest) =
     (if tab_name tab = nm then Some 0 else map_option Suc (index_of_tab nm rest))"

datatype load_outcome = NoFileChosen | LoadError | AlreadyOpen string | Loaded PokemonTab

definition load_tab_from_file :: "document option option \<Rightarrow> App \<Rightarrow> load_outcome \<times> App" where
  \<comment> \<open>the argument is what the file dialog and \<open>json.load\<close> give: \<open>None\<close> when the dialog
     is cancelled, \<open>Some None\<close> when reading the file as a document raises\<close>
  "load_tab_from_file chosen app =
     (case chosen of
        None \<Rightarrow> (NoFileChosen, app)
      | Some None \<Rightarrow> (LoadError, app)
      | Some (Some data) \<Rightarrow>
          (let nm = dict_get (doc_tab_name data) ''Untitled'' in
             case index_of_tab nm (tabs app) of
               Some i \<Rightarrow> (AlreadyOpen nm, app\<lparr>selected := Some i\<rparr>)
             | None \<Rightarrow>
                 (let (tab, app') = create_and_add_tab nm (Some data) app
                  in (Loaded tab, app'))))"

definition startup_load :: "App \<times> string list \<Rightarrow> string \<times> document option \<Rightarrow> App \<times> string list" where
  \<comment> \<open>the body of the loop of \<open>load_all_tabs_on_startup\<close>, on the application and the
     paths reported as failed\<close>
  "startup_load st entry =
     (let (app, failed) = st; (f, content) = entry in
        if endswith f ''.json'' then
          (let filepath = os_path_join SAVE_DIRECTORY f in
             case content of
               Some data \<Rightarrow>
                 (let nm = dict_get (doc_tab_name data) ''Error Loading''
                  in (snd (create_and_add_tab nm (Some data) app), failed))
             | None \<Rightarrow> (app, failed @ [filepath]))
        else (app, failed))"

definition load_all_tabs_on_startup :: "(string \<times> document option) list \<Rightarrow> App \<Rightarrow> App \<times> string list" where
  \<comment> \<open>the directory is the list of \<open>os.listdir\<close>, each name with what \<open>json.load\<close> gives
     for it (\<open>None\<close> when it raises)\<close>
  "load_all_tabs_on_startup dir app = foldl startup_load (app, []) dir"

text \<open>Deserialization as the specification words it: the trackers default to the empty
  list; a tracker record's name defaults to "Error", its count to 0, its obtained flag to
  false; the counters are in the order of the records.\<close>

definition spec_deserialize :: "string \<Rightarrow> document \<Rightarrow> PokemonTab" where
  "spec_deserialize nm d =
     \<lparr>tab_name = nm,
      trackers =
        map (\<lambda>r. PokemonTracker_init
                   (case name r of None \<Rightarrow> ''Error'' | Some n \<Rightarrow> n)
                   (case count r of None \<Rightarrow> 0 | Some c \<Rightarrow> c)
                   (case obtained r of None \<Rightarrow> False | Some b \<Rightarrow> b))
            (case doc_trackers d of None \<Rightarrow> [] | Some rs \<Rightarrow> rs)\<rparr>"

text \<open>A document of the persisted format: every key present, counts not negative.\<close>

definition well_formed_tracker :: "tracker_data \<Rightarrow> bool" where
  "well_formed_tracker r =
     (name r \<noteq> None \<and> (case count r of Some c \<Rightarrow> 0 \<le> c | None \<Rightarrow> False) \<and> obtained r \<noteq> None)"

definition well_formed :: "document \<Rightarrow> bool" where
  "well_formed doc =
     (doc_tab_name doc \<noteq> None \<and>
      (case doc_trackers doc of Some rs \<Rightarrow> list_all well_formed_tracker rs | None \<Rightarrow> False))"

definition matches_announcement :: "string \<Rightarrow> bool" where
  \<comment> \<open>the pattern of \<open>get_data\<close> occurs in the string\<close>
  "matches_announcement s = (re_search s \<noteq> None)"

text \<open>The state of the controls after \<open>lock_as_obtained\<close>.\<close>

definition controls_locked :: "PokemonTracker \<Rightarrow> bool" where
  "controls_locked t =
     (name_entry_state t = Readonly \<and> btn_decrement_state t = Disabled
      \<and> btn_increment_state t = Disabled \<and> btn_got_it_state t = Disabled)"

text \<open>What it means for the pattern to occur in a text with the groups \<open>nm\<close> and
  \<open>ds\<close>: the literal parts in their places, no newline in the first group, one digit or
  more in the second.\<close>

definition pattern_occurs :: "string \<Rightarrow> string \<Rightarrow> string \<Rightarrow> bool" where
  "pattern_occurs text nm ds =
     (\<exists>pre post. text = pre @ ''Shiny '' @ nm @ '' obtained in '' @ ds @ post
        \<and> list_all re_dot nm \<and> ds \<noteq> [] \<and> list_all re_digit ds)"

text \<open>The occurrence that the search reports: the leftmost one, with the longest first
  group there, and with every digit that follows in the second group.\<close>

definition first_longest_occurrence :: "string \<Rightarrow> string \<Rightarrow> string \<Rightarrow> bool" where
  "first_longest_occurrence text nm ds =
     (\<exists>pre post. text = pre @ ''Shiny '' @ nm @ '' obtained in '' @ ds @ post
        \<and> list_all re_dot nm \<and> ds \<noteq> [] \<and> list_all re_digit ds
        \<and> (post = [] \<or> \<not> re_digit (hd post))
        \<and> (\<forall>pre' nm' ds' post'.
              text = pre' @ ''Shiny '' @ nm' @ '' obtained in '' @ ds' @ post'
              \<and> list_all re_dot nm' \<and> ds' \<noteq> [] \<and> list_all re_digit ds'
              \<longrightarrow> length pre < length pre'
                  \<or> (length pre = length pre' \<and> length nm' \<le> length nm)))"

section \<open>Decimal digits\<close>

lemma code_point_digit_char: "d < 10 \<Longrightarrow> code_point (digit_char d) = 48 + d"
  by (simp add: code_point_def digit_char_def)

lemma re_digit_digit_char: "d < 10 \<Longrightarrow> re_digit (digit_char d)"
  by (simp add: re_digit_def code_point_digit_char)

lemma digit_val_digit_char: "d < 10 \<Longrightarrow> digit_val (digit_char d) = int d"
  by (simp add: digit_val_def code_point_digit_char)

lemma digits_of_nat_nonempty: "digits_of_nat n \<noteq> []"
  by (subst digits_of_nat.simps) simp

lemma digits_of_nat_digits: "list_all re_digit (digits_of_nat n)"
proof (induction n rule: digits_of_nat.induct)
  case (1 n)
  show ?case
  proof (cases "n < 10")
    case True
    then show ?thesis
      by (subst digits_of_nat.simps) (simp add: re_digit_digit_char)
  next
    case False
    then show ?thesis
      using 1 by (subst digits_of_nat.simps) (simp add: re_digit_digit_char)
  qed
qed

lemma int_of_digits_snoc: "int_of_digits (ds @ [c]) = 10 * int_of_digits ds + digit_val c"
  by (simp add: int_of_digits_def)

lemma int_of_digits_of_nat: "int_of_digits (digits_of_nat n) = int n"
proof (induction n rule: digits_of_nat.induct)
  case (1 n)
  show ?case
  proof (cases "n < 10")
    case True
    then show ?thesis
      by (subst digits_of_nat.simps) (simp add: int_of_digits_def digit_val_digit_char)
  next
    case False
    then have "int_of_digits (digits_of_nat (n div 10)) = int (n div 10)"
      using 1 by simp
    moreover have "10 * int (n div 10) + int (n mod 10) = int n"
      by arith
    ultimately show ?thesis
      using False
      by (subst digits_of_nat.simps) (simp add: int_of_digits_snoc digit_val_digit_char)
  qed
qed

lemma format_int_nonneg: "0 \<le> i \<Longrightarrow> format_int i = digits_of_nat (nat i)"
  by (simp add: format_int_def)

section \<open>The search on an announcement\<close>

text \<open>On the label that \<open>lock_as_obtained\<close> writes for a name without a newline and a
  count that is not negative, the search matches at the start, the first group is the
  whole name and the second the digits of the count.\<close>

lemma startswith_iff: "startswith s p \<longleftrightarrow> (\<exists>r. s = p @ r)"
  unfolding startswith_def
  by (metis append_eq_conv_conj)

lemma re_digit_not_space: "re_digit c \<Longrightarrow> c \<noteq> CHR '' ''"
  by (auto simp: re_digit_def code_point_def)

lemma takeWhile_digits_then:
  "list_all re_digit ds \<Longrightarrow> \<not> re_digit c \<Longrightarrow> takeWhile re_digit (ds @ c # rest) = ds"
  by (induction ds) simp_all

lemma match_obtained_in_announcement:
  assumes "ds \<noteq> []" "list_all re_digit ds" "\<not> re_digit c"
  shows "match_obtained_in ('' obtained in '' @ ds @ c # rest) = Some ds"
  using assms by (simp add: match_obtained_in_def startswith_def takeWhile_digits_then)

lemma match_obtained_in_not_space: "c \<noteq> CHR '' '' \<Longrightarrow> match_obtained_in (c # cs) = None"
  by (auto simp add: match_obtained_in_def startswith_def)

lemma match_dot_star_digits:
  "list_all re_digit ds \<Longrightarrow> match_dot_star rest = None \<Longrightarrow> match_dot_star (ds @ rest) = None"
  by (induction ds) (simp_all add: match_obtained_in_not_space re_digit_not_space)

lemma match_obtained_in_not_o: "c \<noteq> CHR ''o'' \<Longrightarrow> match_obtained_in (c0 # c # cs) = None"
  by (auto simp add: match_obtained_in_def startswith_def)

lemma match_dot_star_skip:
  "match_obtained_in (c # cs) = None \<Longrightarrow> match_dot_star cs = None \<Longrightarrow>
   match_dot_star (c # cs) = None"
  by simp

lemma match_dot_star_unit:
  "unit = ''try'' \<or> unit = ''tries'' \<Longrightarrow> match_dot_star ('' '' @ unit @ ''!'') = None"
  by (auto simp add: match_obtained_in_def startswith_def)

lemma match_dot_star_literal:
  assumes "match_dot_star (d # r) = None" "d \<noteq> CHR ''o''"
  shows "match_dot_star (''obtained in '' @ d # r) = None"
  using assms
  by (simp add: match_dot_star_skip match_obtained_in_not_space match_obtained_in_not_o
           del: match_dot_star.simps)

lemma re_digit_not_o: "re_digit c \<Longrightarrow> c \<noteq> CHR ''o''"
  by (auto simp: re_digit_def code_point_def)

lemma match_dot_star_tail:
  assumes "ds \<noteq> []" "list_all re_digit ds" "unit = ''try'' \<or> unit = ''tries''"
  shows "match_dot_star ('' obtained in '' @ ds @ '' '' @ unit @ ''!'') = Some ([], ds)"
proof -
  obtain d ds' where ds: "ds = d # ds'"
    using assms(1) by (cases ds) auto
  have "match_dot_star (ds @ '' '' @ unit @ ''!'') = None"
    using assms(2) match_dot_star_unit [OF assms(3)] by (rule match_dot_star_digits)
  then have "match_dot_star (''obtained in '' @ d # ds' @ '' '' @ unit @ ''!'') = None"
    using assms(2) unfolding ds
    by (intro match_dot_star_literal) (simp_all add: re_digit_not_o)
  then have rest: "match_dot_star (''obtained in '' @ ds @ '' '' @ unit @ ''!'') = None"
    by (simp add: ds)
  have here: "match_obtained_in ('' obtained in '' @ ds @ '' '' @ unit @ ''!'') = Some ds"
    using match_obtained_in_announcement [OF assms(1,2), of "CHR '' ''" "unit @ ''!''"]
    by (simp add: re_digit_def code_point_def)
  have "match_dot_star (CHR '' '' # (''obtained in '' @ ds @ '' '' @ unit @ ''!'')) = Some ([], ds)"
    unfolding match_dot_star.simps rest using here by simp
  then show ?thesis by simp
qed

lemma match_dot_star_prefix:
  "\<forall>c \<in> set nm. re_dot c \<Longrightarrow> match_dot_star s = Some ([], ds) \<Longrightarrow>
   match_dot_star (nm @ s) = Some (nm, ds)"
  by (induction nm) simp_all

lemma re_search_announcement:
  assumes "\<forall>c \<in> set nm. re_dot c" "ds \<noteq> []" "list_all re_digit ds"
    "unit = ''try'' \<or> unit = ''tries''"
  shows "re_search (''Shiny '' @ nm @ '' obtained in '' @ ds @ '' '' @ unit @ ''!'') = Some (nm, ds)"
proof -
  have "match_dot_star (nm @ '' obtained in '' @ ds @ '' '' @ unit @ ''!'') = Some (nm, ds)"
    using match_dot_star_prefix [OF assms(1) match_dot_star_tail [OF assms(2,3,4)]] .
  then have "match_at (''Shiny '' @ nm @ '' obtained in '' @ ds @ '' '' @ unit @ ''!'') = Some (nm, ds)"
    by (simp add: match_at_def startswith_def)
  then show ?thesis by simp
qed

section \<open>Counting\<close>

lemma count_replay_step:
  "0 \<le> count_var t \<Longrightarrow> count_var (apply_count_op op t) = max 0 (count_var t + step_delta op)"
  by (cases op) (simp_all add: increment_count_def decrement_count_def Let_def)

lemma count_replay_general:
  "0 \<le> count_var t \<Longrightarrow>
   count_var (foldl (\<lambda>t op. apply_count_op op t) t ops) =
     foldl (\<lambda>a op. max 0 (a + step_delta op)) (count_var t) ops"
proof (induction ops arbitrary: t)
  case Nil
  show ?case by simp
next
  case (Cons op ops)
  have nonneg: "0 \<le> count_var (apply_count_op op t)"
    using Cons.prems by (simp add: count_replay_step)
  show ?case
    using Cons.IH [OF nonneg] Cons.prems by (simp add: count_replay_step)
qed

lemma clamped_sum_nonneg: "0 \<le> a \<Longrightarrow> 0 \<le> clamped_sum a ops"
  unfolding clamped_sum_def
  by (induction ops arbitrary: a) simp_all

text \<open>
  C5. From a count that is not negative, any sequence of increments and decrements leaves
  the count equal to the fold of the +1 and -1 steps clamped at zero after each step; the
  count is never negative, and a decrement at zero leaves zero.
\<close>

theorem replay_counts_clamped:
  "0 \<le> count_var t \<Longrightarrow>
     count_var (replay_count_ops ops t) = clamped_sum (count_var t) ops
     \<and> 0 \<le> count_var (replay_count_ops ops t)
     \<and> (count_var (replay_count_ops ops t) = 0 \<longrightarrow>
          count_var (decrement_count (replay_count_ops ops t)) = 0)"
proof -
  assume a: "0 \<le> count_var t"
  have eq: "count_var (replay_count_ops ops t) = clamped_sum (count_var t) ops"
    unfolding replay_count_ops_def clamped_sum_def by (rule count_replay_general [OF a])
  moreover have "0 \<le> clamped_sum (count_var t) ops" by (rule clamped_sum_nonneg [OF a])
  ultimately show ?thesis by (simp add: decrement_count_def)
qed

theorem replay_counts_clamped_witness:
  "0 \<le> count_var (PokemonTracker_init ''Pikachu'' 0 False)
   \<and> count_var (replay_count_ops [Decrement, Increment, Increment, Decrement, Decrement, Decrement]
        (PokemonTracker_init ''Pikachu'' 0 False)) = 0
   \<and> clamped_sum 0 [Decrement, Increment, Increment, Decrement, Decrement, Decrement] = 0"
  using replay_counts_clamped [of "PokemonTracker_init ''Pikachu'' 0 False"
      "[Decrement, Increment, Increment, Decrement, Decrement, Decrement]"]
  by (simp add: PokemonTracker_init_def clamped_sum_def)

section \<open>Locking\<close>


lemma mark_obtained_examples:
  "name_var (mark_obtained (PokemonTracker_init ''Foo'' 1 False)) = ''Shiny Foo obtained in 1 try!''"
  "name_var (mark_obtained (PokemonTracker_init ''Foo'' 0 False)) = ''Shiny Foo obtained in 0 tries!''"
  "name_var (mark_obtained (PokemonTracker_init ''Foo'' 2 False)) = ''Shiny Foo obtained in 2 tries!''"
  by code_simp+

text \<open>Saving after locking gives back the name and the count, for a name without a
  newline and a count that is not negative.\<close>

lemma get_data_after_lock:
  assumes "\<forall>c \<in> set (name_var t). c \<noteq> newline" "0 \<le> count_var t"
  shows "get_data (mark_obtained t) =
           \<lparr>name = Some (name_var t), count = Some (count_var t), obtained = Some True\<rparr>"
proof -
  let ?ds = "digits_of_nat (nat (count_var t))"
  let ?unit = "if count_var t = 1 then ''try'' else ''tries''"
  have lbl: "name_var (mark_obtained t) =
      ''Shiny '' @ name_var t @ '' obtained in '' @ ?ds @ '' '' @ ?unit @ ''!''"
    using assms(2) by (simp add: mark_obtained_def lock_as_obtained_def Let_def format_int_nonneg)
  have "re_search (name_var (mark_obtained t)) = Some (name_var t, ?ds)"
    unfolding lbl
    by (rule re_search_announcement)
       (use assms(1) in \<open>simp_all add: re_dot_def digits_of_nat_nonempty digits_of_nat_digits\<close>)
  moreover have "obtained_var (mark_obtained t)" "count_var (mark_obtained t) = count_var t"
    by (simp_all add: mark_obtained_def lock_as_obtained_def Let_def)
  ultimately show ?thesis
    using assms(2) by (simp add: get_data_def int_of_digits_of_nat)
qed

section \<open>The search finds the pattern exactly when it occurs\<close>

lemma match_obtained_in_maximal:
  assumes "match_obtained_in s = Some ds"
  shows "\<exists>post. s = '' obtained in '' @ ds @ post \<and> ds \<noteq> [] \<and> list_all re_digit ds
           \<and> (post = [] \<or> \<not> re_digit (hd post))"
proof -
  from assms have sw: "startswith s '' obtained in ''"
    and ds: "ds = takeWhile re_digit (drop 13 s)" and ne: "ds \<noteq> []"
    by (auto simp: match_obtained_in_def Let_def split: if_splits)
  from sw obtain r where r: "s = '' obtained in '' @ r"
    unfolding startswith_iff by blast
  have split: "r = ds @ dropWhile re_digit r"
    using ds r by simp
  have digits: "list_all re_digit ds"
    unfolding ds list_all_iff by (auto dest: set_takeWhileD)
  have "dropWhile re_digit r = [] \<or> \<not> re_digit (hd (dropWhile re_digit r))"
    using hd_dropWhile [of re_digit r] by blast
  with r split digits ne show ?thesis by metis
qed

lemma match_obtained_in_complete:
  assumes "ds \<noteq> []" "list_all re_digit ds"
  shows "match_obtained_in ('' obtained in '' @ ds @ post) \<noteq> None"
proof -
  obtain d ds' where "ds = d # ds'" "re_digit d"
    using assms by (cases ds) auto
  then show ?thesis
    by (simp add: match_obtained_in_def startswith_def)
qed

lemma match_dot_star_maximal:
  "match_dot_star s = Some (nm, ds) \<Longrightarrow>
   \<exists>post. s = nm @ '' obtained in '' @ ds @ post
     \<and> list_all re_dot nm \<and> ds \<noteq> [] \<and> list_all re_digit ds
     \<and> (post = [] \<or> \<not> re_digit (hd post))"
proof (induction s arbitrary: nm)
  case Nil
  then show ?case by (auto dest: match_obtained_in_maximal)
next
  case (Cons c cs)
  show ?case
  proof (cases "if re_dot c then match_dot_star cs else None")
    case None
    with Cons.prems have "nm = []" "match_obtained_in (c # cs) = Some ds"
      by auto
    then show ?thesis
      using match_obtained_in_maximal [of "c # cs" ds] by auto
  next
    case (Some g)
    obtain nm' ds' where g: "g = (nm', ds')" by (cases g)
    from Some g have dot: "re_dot c" and rec: "match_dot_star cs = Some (nm', ds')"
      by (auto split: if_splits)
    from Cons.prems Some g have eq: "nm = c # nm'" "ds = ds'"
      by auto
    from rec eq have rec': "match_dot_star cs = Some (nm', ds)" by simp
    from Cons.IH [OF rec'] obtain post where
      "cs = nm' @ '' obtained in '' @ ds @ post" "list_all re_dot nm'"
      "ds \<noteq> []" "list_all re_digit ds" "post = [] \<or> \<not> re_digit (hd post)"
      by blast
    then show ?thesis
      using eq dot by auto
  qed
qed

lemma match_dot_star_complete:
  "list_all re_dot nm \<Longrightarrow> match_obtained_in r \<noteq> None \<Longrightarrow> match_dot_star (nm @ r) \<noteq> None"
proof (induction nm)
  case Nil
  then show ?case
    by (cases r) (auto split: option.splits)
next
  case (Cons c nm)
  then show ?case by (auto split: option.splits)
qed

lemma match_dot_star_longest:
  "match_dot_star s = Some (nm, ds) \<Longrightarrow>
   s = nm' @ '' obtained in '' @ ds' @ post' \<Longrightarrow>
   list_all re_dot nm' \<Longrightarrow> ds' \<noteq> [] \<Longrightarrow> list_all re_digit ds' \<Longrightarrow>
   length nm' \<le> length nm"
proof (induction s arbitrary: nm nm')
  case Nil
  then show ?case by simp
next
  case (Cons c cs)
  show ?case
  proof (cases nm')
    case Nil
    then show ?thesis by simp
  next
    case (Cons c' nm'')
    with Cons.prems(2) have c: "c' = c" and cs: "cs = nm'' @ '' obtained in '' @ ds' @ post'"
      by simp_all
    from Cons.prems(3) Cons have dot: "re_dot c" "list_all re_dot nm''"
      using c by simp_all
    have "match_dot_star cs \<noteq> None"
      unfolding cs
      by (rule match_dot_star_complete [OF dot(2) match_obtained_in_complete [OF Cons.prems(4,5)]])
    then obtain nm0 ds0 where inner: "match_dot_star cs = Some (nm0, ds0)"
      by auto
    with Cons.prems(1) dot(1) have nm: "nm = c # nm0" and "ds0 = ds"
      by simp_all
    with inner have "match_dot_star cs = Some (nm0, ds)" by simp
    from Cons.IH [OF this cs dot(2) Cons.prems(4,5)] have "length nm'' \<le> length nm0" .
    with nm Cons show ?thesis by simp
  qed
qed

lemma match_at_complete:
  assumes "list_all re_dot nm" "ds \<noteq> []" "list_all re_digit ds"
  shows "match_at (''Shiny '' @ nm @ '' obtained in '' @ ds @ post) \<noteq> None"
  using match_dot_star_complete [OF assms(1) match_obtained_in_complete [OF assms(2,3)], of post]
  by (simp add: match_at_def startswith_def)

lemma re_search_first_longest:
  "re_search s = Some (nm, ds) \<Longrightarrow> first_longest_occurrence s nm ds"
proof (induction s)
  case Nil
  then have "match_at [] = Some (nm, ds)" by simp
  then show ?case by (simp add: match_at_def startswith_def)
next
  case (Cons c cs)
  show ?case
  proof (cases "match_at (c # cs)")
    case (Some g)
    with Cons.prems have m: "match_at (c # cs) = Some (nm, ds)" by simp
    then have sw: "startswith (c # cs) ''Shiny ''"
      and md: "match_dot_star (drop 6 (c # cs)) = Some (nm, ds)"
      by (auto simp: match_at_def split: if_splits)
    from sw obtain r where r: "c # cs = ''Shiny '' @ r"
      unfolding startswith_iff by blast
    then have dr: "drop 6 (c # cs) = r" by simp
    from md dr have mr: "match_dot_star r = Some (nm, ds)" by simp
    from match_dot_star_maximal [OF mr] obtain post where
      post: "r = nm @ '' obtained in '' @ ds @ post" "list_all re_dot nm"
      "ds \<noteq> []" "list_all re_digit ds" "post = [] \<or> \<not> re_digit (hd post)"
      by blast
    have longest: "length [] < length pre' \<or> (length [] = length pre' \<and> length nm' \<le> length nm)"
      if d: "c # cs = pre' @ ''Shiny '' @ nm' @ '' obtained in '' @ ds' @ post'"
        and v: "list_all re_dot nm'" "ds' \<noteq> []" "list_all re_digit ds'"
      for pre' nm' ds' post'
    proof (cases pre')
      case Nil
      with d r have "r = nm' @ '' obtained in '' @ ds' @ post'" by simp
      from match_dot_star_longest [OF mr this v] Nil show ?thesis by simp
    next
      case (Cons a list)
      then show ?thesis by simp
    qed
    have "c # cs = [] @ ''Shiny '' @ nm @ '' obtained in '' @ ds @ post"
      using r post(1) by simp
    then show ?thesis
      unfolding first_longest_occurrence_def
      using post(2-5) longest by blast
  next
    case None
    with Cons.prems have "re_search cs = Some (nm, ds)" by simp
    then have "first_longest_occurrence cs nm ds" by (rule Cons.IH)
    then obtain pre post where
      d: "cs = pre @ ''Shiny '' @ nm @ '' obtained in '' @ ds @ post"
      and v: "list_all re_dot nm" "ds \<noteq> []" "list_all re_digit ds"
        "post = [] \<or> \<not> re_digit (hd post)"
      and first: "\<And>pre' nm' ds' post'.
              cs = pre' @ ''Shiny '' @ nm' @ '' obtained in '' @ ds' @ post' \<Longrightarrow>
              list_all re_dot nm' \<Longrightarrow> ds' \<noteq> [] \<Longrightarrow> list_all re_digit ds' \<Longrightarrow>
               length pre < length pre'
                  \<or> (length pre = length pre' \<and> length nm' \<le> length nm)"
      unfolding first_longest_occurrence_def by blast
    have first': "length (c # pre) < length pre' \<or> (length (c # pre) = length pre' \<and> length nm' \<le> length nm)"
      if d': "c # cs = pre' @ ''Shiny '' @ nm' @ '' obtained in '' @ ds' @ post'"
        and v': "list_all re_dot nm'" "ds' \<noteq> []" "list_all re_digit ds'"
      for pre' nm' ds' post'
    proof (cases pre')
      case Nil
      with d' have "c # cs = ''Shiny '' @ nm' @ '' obtained in '' @ ds' @ post'" by simp
      with match_at_complete [OF v', of post'] None show ?thesis by simp
    next
      case (Cons a pre'')
      with d' have "cs = pre'' @ ''Shiny '' @ nm' @ '' obtained in '' @ ds' @ post'" by simp
      from first [OF this v'] Cons show ?thesis by simp
    qed
    have "c # cs = (c # pre) @ ''Shiny '' @ nm @ '' obtained in '' @ ds @ post"
      using d by simp
    then show ?thesis
      unfolding first_longest_occurrence_def
      using v first' by blast
  qed
qed

lemma re_search_sound: "re_search s = Some (nm, ds) \<Longrightarrow> pattern_occurs s nm ds"
  using re_search_first_longest [of s nm ds]
  unfolding first_longest_occurrence_def pattern_occurs_def by blast

lemma re_search_append:
  "match_at s \<noteq> None \<Longrightarrow> re_search (pre @ s) \<noteq> None"
proof (induction pre)
  case Nil
  then show ?case by (cases s) (auto split: option.splits)
next
  case (Cons c pre)
  then show ?case by (auto split: option.splits)
qed

lemma re_search_complete: "pattern_occurs s nm ds \<Longrightarrow> re_search s \<noteq> None"
  unfolding pattern_occurs_def
  using re_search_append match_at_complete by blast

text \<open>The occurrence reported is determined by the text.\<close>

lemma digits_maximal_unique:
  assumes "ds @ post = ds' @ post'" "list_all re_digit ds" "list_all re_digit ds'"
    "post = [] \<or> \<not> re_digit (hd post)" "post' = [] \<or> \<not> re_digit (hd post')"
  shows "ds = ds'"
proof -
  have "takeWhile re_digit (ds @ post) = ds"
    using assms(2,4) by (cases post) (auto simp: list_all_iff)
  moreover have "takeWhile re_digit (ds' @ post') = ds'"
    using assms(3,5) by (cases post') (auto simp: list_all_iff)
  ultimately show ?thesis using assms(1) by simp
qed

lemma first_longest_occurrence_unique:
  assumes "first_longest_occurrence s nm ds" "first_longest_occurrence s nm' ds'"
  shows "nm = nm' \<and> ds = ds'"
proof -
  from assms(1) obtain pre post where
    d: "s = pre @ ''Shiny '' @ nm @ '' obtained in '' @ ds @ post"
    and v: "list_all re_dot nm" "ds \<noteq> []" "list_all re_digit ds"
    and m: "post = [] \<or> \<not> re_digit (hd post)"
    and first: "\<And>p n d q. s = p @ ''Shiny '' @ n @ '' obtained in '' @ d @ q \<Longrightarrow>
              list_all re_dot n \<Longrightarrow> d \<noteq> [] \<Longrightarrow> list_all re_digit d \<Longrightarrow>
               length pre < length p \<or> (length pre = length p \<and> length n \<le> length nm)"
    unfolding first_longest_occurrence_def by blast
  from assms(2) obtain pre' post' where
    d': "s = pre' @ ''Shiny '' @ nm' @ '' obtained in '' @ ds' @ post'"
    and v': "list_all re_dot nm'" "ds' \<noteq> []" "list_all re_digit ds'"
    and m': "post' = [] \<or> \<not> re_digit (hd post')"
    and first': "\<And>p n d q. s = p @ ''Shiny '' @ n @ '' obtained in '' @ d @ q \<Longrightarrow>
              list_all re_dot n \<Longrightarrow> d \<noteq> [] \<Longrightarrow> list_all re_digit d \<Longrightarrow>
               length pre' < length p \<or> (length pre' = length p \<and> length n \<le> length nm')"
    unfolding first_longest_occurrence_def by blast
  from first [OF d' v'] first' [OF d v]
  have len: "length pre = length pre'" "length nm = length nm'"
    by auto
  from d d' have eq: "pre @ ''Shiny '' @ nm @ '' obtained in '' @ ds @ post
      = pre' @ ''Shiny '' @ nm' @ '' obtained in '' @ ds' @ post'" by simp
  with len(1) have "pre = pre'"
    and rest: "''Shiny '' @ nm @ '' obtained in '' @ ds @ post = ''Shiny '' @ nm' @ '' obtained in '' @ ds' @ post'"
    by simp_all
  from rest have "nm @ '' obtained in '' @ ds @ post = nm' @ '' obtained in '' @ ds' @ post'"
    by simp
  with len(2) have nm: "nm = nm'" and "'' obtained in '' @ ds @ post = '' obtained in '' @ ds' @ post'"
    by simp_all
  then have "ds @ post = ds' @ post'" by simp
  from digits_maximal_unique [OF this v(3) v'(3) m m'] nm show ?thesis by simp
qed

section \<open>Saving a locked tracker\<close>

text \<open>
  What \<open>get_data\<close> returns for a tracker whose obtained flag is set, in terms of its
  current name text alone: when the pattern occurs, the two groups of its leftmost,
  longest occurrence, and on a text of the announcement's form
  "Shiny <name> obtained in <count> <try|tries>!", with a name without a newline, the name
  and the count written there; when the pattern does not occur, the name "Unknown" and the
  stored count. The obtained entry is true in both cases.
\<close>

lemma get_data_obtained:
  assumes "obtained_var t"
  shows "obtained (get_data t) = Some True
     \<and> ((\<exists>nm ds. pattern_occurs (name_var t) nm ds) \<longrightarrow>
          (\<exists>nm ds. first_longest_occurrence (name_var t) nm ds
             \<and> name (get_data t) = Some nm \<and> count (get_data t) = Some (int_of_digits ds)))
     \<and> ((\<nexists>nm ds. pattern_occurs (name_var t) nm ds) \<longrightarrow>
          name (get_data t) = Some ''Unknown'' \<and> count (get_data t) = Some (count_var t))
     \<and> (\<forall>nm ds unit.
           name_var t = ''Shiny '' @ nm @ '' obtained in '' @ ds @ '' '' @ unit @ ''!''
           \<and> list_all re_dot nm \<and> ds \<noteq> [] \<and> list_all re_digit ds
           \<and> (unit = ''try'' \<or> unit = ''tries'') \<longrightarrow>
           name (get_data t) = Some nm \<and> count (get_data t) = Some (int_of_digits ds))"
proof (intro conjI impI allI)
  show "obtained (get_data t) = Some True"
    using assms by (simp add: get_data_def split: option.splits)
next
  assume "\<exists>nm ds. pattern_occurs (name_var t) nm ds"
  then have "re_search (name_var t) \<noteq> None"
    using re_search_complete by blast
  then obtain nm ds where found: "re_search (name_var t) = Some (nm, ds)"
    by auto
  then have "first_longest_occurrence (name_var t) nm ds"
    by (rule re_search_first_longest)
  moreover have "name (get_data t) = Some nm" "count (get_data t) = Some (int_of_digits ds)"
    using assms found by (simp_all add: get_data_def)
  ultimately show "\<exists>nm ds. first_longest_occurrence (name_var t) nm ds
      \<and> name (get_data t) = Some nm \<and> count (get_data t) = Some (int_of_digits ds)"
    by blast
next
  assume none: "\<nexists>nm ds. pattern_occurs (name_var t) nm ds"
  have "re_search (name_var t) = None"
  proof (cases "re_search (name_var t)")
    case None
    then show ?thesis .
  next
    case (Some g)
    then have "pattern_occurs (name_var t) (fst g) (snd g)"
      using re_search_sound [of "name_var t" "fst g" "snd g"] by simp
    with none show ?thesis by blast
  qed
  then show "name (get_data t) = Some ''Unknown''" "count (get_data t) = Some (count_var t)"
    using assms by (simp_all add: get_data_def)
next
  fix nm ds unit
  assume a: "name_var t = ''Shiny '' @ nm @ '' obtained in '' @ ds @ '' '' @ unit @ ''!''
           \<and> list_all re_dot nm \<and> ds \<noteq> [] \<and> list_all re_digit ds
           \<and> (unit = ''try'' \<or> unit = ''tries'')"
  then have "re_search (name_var t) = Some (nm, ds)"
    using re_search_announcement [of nm ds unit] by (simp add: list_all_iff)
  then show "name (get_data t) = Some nm" "count (get_data t) = Some (int_of_digits ds)"
    using assms by (simp_all add: get_data_def)
qed

lemma get_data_obtained_example:
  "obtained_var (PokemonTracker_init ''Foo'' 3 True)
   \<and> get_data (PokemonTracker_init ''Foo'' 3 True)
       = \<lparr>name = Some ''Foo'', count = Some 3, obtained = Some True\<rparr>"
proof -
  let ?t = "PokemonTracker_init ''Foo'' 3 True"
  have h: "obtained_var ?t"
    by (simp add: PokemonTracker_init_def lock_as_obtained_def Let_def)
  have lbl: "name_var ?t = ''Shiny '' @ ''Foo'' @ '' obtained in '' @ ''3'' @ '' '' @ ''tries'' @ ''!''"
    by code_simp
  have dg: "list_all re_dot ''Foo''" "list_all re_digit ''3''" "int_of_digits ''3'' = 3"
    by code_simp+
  from get_data_obtained [OF h] lbl dg
  have "obtained (get_data ?t) = Some True" "name (get_data ?t) = Some ''Foo''"
       "count (get_data ?t) = Some 3"
    by (blast, fastforce, fastforce)
  then have "get_data ?t = \<lparr>name = Some ''Foo'', count = Some 3, obtained = Some True\<rparr>"
    by (cases "get_data ?t") simp
  with h show ?thesis by simp
qed

text \<open>
  C1. For a locked tracker \<open>get_data\<close> does not always return the name and the count it
  had before the lock, or else "Unknown" and the stored count: the first group of the
  pattern cannot contain a newline and the search is not tied to the start of the text, so
  for the name \<open>a\<newline>Shiny b\<close>, locked at the count 0, the search succeeds at the second
  "Shiny " and \<open>get_data\<close> returns the name "b".
\<close>

theorem get_data_returns_other_name:
  "obtained_var (mark_obtained (PokemonTracker_init (''a'' @ [newline] @ ''Shiny b'') 0 False))
   \<and> name_var (mark_obtained (PokemonTracker_init (''a'' @ [newline] @ ''Shiny b'') 0 False))
       = ''Shiny a'' @ [newline] @ ''Shiny b obtained in 0 tries!''
   \<and> re_search (name_var (mark_obtained (PokemonTracker_init (''a'' @ [newline] @ ''Shiny b'') 0 False)))
       = Some (''b'', ''0'')
   \<and> get_data (mark_obtained (PokemonTracker_init (''a'' @ [newline] @ ''Shiny b'') 0 False))
       = \<lparr>name = Some ''b'', count = Some 0, obtained = Some True\<rparr>
   \<and> name (get_data (mark_obtained (PokemonTracker_init (''a'' @ [newline] @ ''Shiny b'') 0 False)))
       \<noteq> Some (''a'' @ [newline] @ ''Shiny b'')
   \<and> name (get_data (mark_obtained (PokemonTracker_init (''a'' @ [newline] @ ''Shiny b'') 0 False)))
       \<noteq> Some ''Unknown''"
  by code_simp

text \<open>
  C3. Locking and then saving does not always give back the name: the first group of the
  pattern cannot contain a newline, so for the name \<open>a\<newline>b\<close> the search finds nothing and
  \<open>get_data\<close> returns "Unknown".
\<close>

theorem lock_then_get_data_loses_name:
  "get_data (mark_obtained (PokemonTracker_init [CHR ''a'', newline, CHR ''b''] 0 False))
     = \<lparr>name = Some ''Unknown'', count = Some 0, obtained = Some True\<rparr>
   \<and> get_data (mark_obtained (PokemonTracker_init [CHR ''a'', newline, CHR ''b''] 0 False))
     \<noteq> \<lparr>name = Some [CHR ''a'', newline, CHR ''b''], count = Some 0, obtained = Some True\<rparr>"
  by code_simp

section \<open>A locked tracker does not change\<close>

lemma controls_locked_lock: "controls_locked (lock_as_obtained t)"
  by (simp add: controls_locked_def lock_as_obtained_def Let_def)

lemma init_controls: "obtained_var (PokemonTracker_init nm cnt ob) \<Longrightarrow> controls_locked (PokemonTracker_init nm cnt ob)"
  by (cases ob) (simp_all add: PokemonTracker_init_def controls_locked_lock)

lemma perform_locked: "obtained_var t \<Longrightarrow> controls_locked t \<Longrightarrow> perform a t = t"
  by (cases a) (simp_all add: controls_locked_def click_def)

lemma perform_keeps_lock:
  assumes "obtained_var t \<longrightarrow> controls_locked t" "obtained_var (perform a t)"
  shows "controls_locked (perform a t)"
proof (cases "obtained_var t")
  case True
  with assms(1) show ?thesis by (simp add: perform_locked)
next
  case False
  show ?thesis
  proof (cases a)
    case ClickGotIt
    with assms(2) False show ?thesis
      by (auto simp: click_def mark_obtained_def controls_locked_lock split: if_splits)
  next
    case ClickDecrement
    with assms(2) False show ?thesis
      by (auto simp: click_def decrement_count_def Let_def split: if_splits)
  next
    case ClickIncrement
    with assms(2) False show ?thesis
      by (auto simp: click_def increment_count_def split: if_splits)
  next
    case (EditName s)
    with assms(2) False show ?thesis
      by (auto split: if_splits)
  qed
qed

lemma replay_keeps_lock:
  "obtained_var t \<longrightarrow> controls_locked t \<Longrightarrow>
   obtained_var (replay as t) \<longrightarrow> controls_locked (replay as t)"
proof (induction as arbitrary: t)
  case Nil
  then show ?case by (simp add: replay_def)
next
  case (Cons a as)
  have "obtained_var (perform a t) \<longrightarrow> controls_locked (perform a t)"
    using perform_keeps_lock [OF Cons.prems] by blast
  from Cons.IH [OF this] show ?case by (simp add: replay_def)
qed

lemma replay_locked: "\<forall>a. perform a t = t \<Longrightarrow> replay as t = t"
  by (induction as) (simp_all add: replay_def)

text \<open>
  C4. Once the obtained flag of a tracker is set, no user action changes any of its
  fields: the buttons of the three operations are disabled and the name entry is
  read-only, in every state that the construction and the user's actions can reach.
\<close>

theorem locked_is_terminal:
  assumes "obtained_var (replay as (PokemonTracker_init nm cnt ob))"
  shows "perform a (replay as (PokemonTracker_init nm cnt ob)) = replay as (PokemonTracker_init nm cnt ob)
    \<and> replay bs (replay as (PokemonTracker_init nm cnt ob)) = replay as (PokemonTracker_init nm cnt ob)"
proof -
  let ?t = "replay as (PokemonTracker_init nm cnt ob)"
  have "obtained_var (PokemonTracker_init nm cnt ob) \<longrightarrow> controls_locked (PokemonTracker_init nm cnt ob)"
    using init_controls by blast
  then have "obtained_var ?t \<longrightarrow> controls_locked ?t"
    by (rule replay_keeps_lock)
  with assms have fixed: "\<forall>a. perform a ?t = ?t"
    by (simp add: perform_locked)
  then show ?thesis
    using replay_locked [OF fixed] by simp
qed

theorem locked_is_terminal_witness:
  "obtained_var (replay [ClickIncrement, ClickGotIt] (PokemonTracker_init ''Pikachu'' 0 False))
   \<and> perform ClickIncrement (replay [ClickIncrement, ClickGotIt] (PokemonTracker_init ''Pikachu'' 0 False))
       = replay [ClickIncrement, ClickGotIt] (PokemonTracker_init ''Pikachu'' 0 False)
   \<and> count_var (replay [ClickIncrement, ClickGotIt] (PokemonTracker_init ''Pikachu'' 0 False)) = 1"
proof -
  have h: "obtained_var (replay [ClickIncrement, ClickGotIt] (PokemonTracker_init ''Pikachu'' 0 False))"
    by (simp add: replay_def PokemonTracker_init_def click_def increment_count_def
        mark_obtained_def lock_as_obtained_def Let_def)
  have c: "count_var (replay [ClickIncrement, ClickGotIt] (PokemonTracker_init ''Pikachu'' 0 False)) = 1"
    by (simp add: replay_def PokemonTracker_init_def click_def increment_count_def
        mark_obtained_def lock_as_obtained_def Let_def)
  show ?thesis
    using h c locked_is_terminal [OF h, of ClickIncrement] by simp
qed

text \<open>The methods themselves have no guard: what keeps a locked tracker unchanged is
  that its controls no longer call them.\<close>

lemma increment_count_unguarded:
  "count_var (increment_count (mark_obtained t)) = count_var t + 1"
  by (simp add: increment_count_def mark_obtained_def lock_as_obtained_def Let_def)

section \<open>The storage key\<close>

lemma re_sub_unsafe_map: "re_sub_unsafe ''_'' s = map spec_replace_unsafe s"
  by (induction s) (auto simp: unsafe_char_def spec_replace_unsafe_def re_word_def)

lemma str_replace_char_map:
  "str_replace_char (CHR '' '') ''_'' s = map spec_space_to_underscore s"
  by (induction s) (simp_all add: spec_space_to_underscore_def)

lemma dropWhile_append_keep:
  "\<not> P x \<Longrightarrow> dropWhile P (ys @ x # zs) = dropWhile P ys @ x # zs"
  by (induction ys) simp_all

lemma strip_either_order:
  "rev (dropWhile P (rev (dropWhile P s))) = dropWhile P (rev (dropWhile P (rev s)))"
proof (cases "dropWhile P s")
  case Nil
  then have "\<forall>c \<in> set s. P c" by simp
  then have a: "dropWhile P s = []" "dropWhile P (rev s) = []" by simp_all
  show ?thesis unfolding a by simp
next
  case (Cons x b)
  then have nx: "\<not> P x" using hd_dropWhile [of P s] by (metis list.sel(1) list.distinct(1))
  have s: "s = takeWhile P s @ x # b"
    using Cons takeWhile_dropWhile_id [of P s] by simp
  have left: "rev (dropWhile P (rev (x # b))) = x # rev (dropWhile P (rev b))"
    using dropWhile_append_keep [of P x "rev b" "[]"] nx by simp
  have "rev s = rev b @ x # rev (takeWhile P s)"
    by (subst s) simp
  then have "dropWhile P (rev s) = dropWhile P (rev b) @ x # rev (takeWhile P s)"
    using dropWhile_append_keep [of P x "rev b" "rev (takeWhile P s)"] nx by simp
  then have "rev (dropWhile P (rev s)) = takeWhile P s @ x # rev (dropWhile P (rev b))"
    by simp
  then have "dropWhile P (rev (dropWhile P (rev s))) = x # rev (dropWhile P (rev b))"
    using nx by (auto simp add: dropWhile_append dest: set_takeWhileD)
  with left Cons show ?thesis by simp
qed

lemma str_strip_spec_trim: "str_strip s = spec_trim s"
  unfolding str_strip_def spec_trim_def by (rule strip_either_order)

text \<open>
  C6. The name derived from a tab name is the specification's transformation: every
  character that is not alphanumeric, underscore, hyphen, dot or space becomes an
  underscore, then the text is trimmed, lower-cased, and its spaces become underscores.
  "Pokemon Glazed!" and "pokemon_glazed!" give the same name and the same file.
\<close>

theorem safe_name_is_storage_key:
  "safe_name s = spec_storage_key s
   \<and> safe_name ''Pokemon Glazed!'' = ''pokemon_glazed_''
   \<and> safe_name ''pokemon_glazed!'' = ''pokemon_glazed_''
   \<and> get_filename_for_tab ''Pokemon Glazed!'' = get_filename_for_tab ''pokemon_glazed!''"
proof -
  have "safe_name s = spec_storage_key s"
    by (simp add: safe_name_def spec_storage_key_def str_lower_def re_sub_unsafe_map
        str_replace_char_map str_strip_spec_trim)
  moreover have a: "safe_name ''Pokemon Glazed!'' = ''pokemon_glazed_''"
    by code_simp
  moreover have b: "safe_name ''pokemon_glazed!'' = ''pokemon_glazed_''"
    by code_simp
  moreover have "get_filename_for_tab ''Pokemon Glazed!'' = get_filename_for_tab ''pokemon_glazed!''"
    by (simp add: get_filename_for_tab_def a b)
  ultimately show ?thesis by simp
qed

text \<open>After the replacement the only white space left is the space character, so the
  trimming removes spaces only.\<close>

lemma only_spaces_trimmed:
  "str_isspace (spec_replace_unsafe c) \<longleftrightarrow> spec_replace_unsafe c = CHR '' ''"
  by (auto simp: spec_replace_unsafe_def str_isspace_def str_isalnum_def code_point_def Let_def)

section \<open>Loading a document\<close>

lemma foldl_add_tracker_from:
  "foldl add_tracker_from tab rs =
     tab\<lparr>trackers := trackers tab @
        map (\<lambda>r. PokemonTracker_init
                   (case name r of None \<Rightarrow> ''Error'' | Some n \<Rightarrow> n)
                   (case count r of None \<Rightarrow> 0 | Some c \<Rightarrow> c)
                   (case obtained r of None \<Rightarrow> False | Some b \<Rightarrow> b)) rs\<rparr>"
  by (induction rs arbitrary: tab)
     (simp_all add: add_tracker_from_def add_tracker_def dict_get_def)

lemma create_and_add_tab_spec:
  "create_and_add_tab nm (Some d) app =
     (spec_deserialize nm d,
      app\<lparr>tabs := tabs app @ [spec_deserialize nm d], selected := Some (length (tabs app))\<rparr>)"
  by (simp add: create_and_add_tab_def spec_deserialize_def PokemonTab_init_def
      foldl_add_tracker_from Let_def split: option.splits)

lemma init_obtained_is_mark:
  "PokemonTracker_init nm cnt True = mark_obtained (PokemonTracker_init nm cnt False)"
  by (simp add: PokemonTracker_init_def mark_obtained_def lock_as_obtained_def Let_def)



text \<open>
  C8. A tracker record whose \<open>obtained\<close> is true is built as a tracker and locked at once,
  by the transition that the "Got it!" button runs. The document
  \<open>{"trackers": [{"obtained": true, "count": 3, "name": "Foo"}]}\<close> gives one tracker,
  locked, with the name text "Shiny Foo obtained in 3 tries!" and the count 3.
\<close>

theorem load_locks_obtained:
  assumes "doc_trackers d = Some rs" "i < length rs" "obtained (rs ! i) = Some True"
  shows "trackers (fst (create_and_add_tab nm (Some d) app)) ! i =
           mark_obtained (PokemonTracker_init (dict_get (name (rs ! i)) ''Error'')
                                              (dict_get (count (rs ! i)) 0) False)
    \<and> load_tab_from_file
        (Some (Some \<lparr>doc_tab_name = None,
                      doc_trackers = Some [\<lparr>name = Some ''Foo'', count = Some 3, obtained = Some True\<rparr>]\<rparr>))
        \<lparr>tabs = [], selected = None\<rparr> =
      (Loaded \<lparr>tab_name = ''Untitled'',
               trackers = [\<lparr>name_var = ''Shiny Foo obtained in 3 tries!'', count_var = 3,
                            obtained_var = True, name_entry_state = Readonly,
                            btn_decrement_state = Disabled, btn_increment_state = Disabled,
                            btn_got_it_state = Disabled, lbl_count_gridded = False,
                            frame_style = ''Obtained.TFrame''\<rparr>]\<rparr>,
       \<lparr>tabs = [\<lparr>tab_name = ''Untitled'',
               trackers = [\<lparr>name_var = ''Shiny Foo obtained in 3 tries!'', count_var = 3,
                            obtained_var = True, name_entry_state = Readonly,
                            btn_decrement_state = Disabled, btn_increment_state = Disabled,
                            btn_got_it_state = Disabled, lbl_count_gridded = False,
                            frame_style = ''Obtained.TFrame''\<rparr>]\<rparr>],
        selected = Some 0\<rparr>)"
proof
  show "trackers (fst (create_and_add_tab nm (Some d) app)) ! i =
           mark_obtained (PokemonTracker_init (dict_get (name (rs ! i)) ''Error'')
                                              (dict_get (count (rs ! i)) 0) False)"
    using assms
    by (simp add: create_and_add_tab_spec spec_deserialize_def dict_get_def init_obtained_is_mark)
next
  show "load_tab_from_file
        (Some (Some \<lparr>doc_tab_name = None,
                      doc_trackers = Some [\<lparr>name = Some ''Foo'', count = Some 3, obtained = Some True\<rparr>]\<rparr>))
        \<lparr>tabs = [], selected = None\<rparr> =
      (Loaded \<lparr>tab_name = ''Untitled'',
               trackers = [\<lparr>name_var = ''Shiny Foo obtained in 3 tries!'', count_var = 3,
                            obtained_var = True, name_entry_state = Readonly,
                            btn_decrement_state = Disabled, btn_increment_state = Disabled,
                            btn_got_it_state = Disabled, lbl_count_gridded = False,
                            frame_style = ''Obtained.TFrame''\<rparr>]\<rparr>,
       \<lparr>tabs = [\<lparr>tab_name = ''Untitled'',
               trackers = [\<lparr>name_var = ''Shiny Foo obtained in 3 tries!'', count_var = 3,
                            obtained_var = True, name_entry_state = Readonly,
                            btn_decrement_state = Disabled, btn_increment_state = Disabled,
                            btn_got_it_state = Disabled, lbl_count_gridded = False,
                            frame_style = ''Obtained.TFrame''\<rparr>]\<rparr>],
        selected = Some 0\<rparr>)"
    by code_simp
qed

theorem load_locks_obtained_witness:
  "doc_trackers \<lparr>doc_tab_name = None, doc_trackers = Some [\<lparr>name = Some ''Foo'', count = Some 3, obtained = Some True\<rparr>]\<rparr>
      = Some [\<lparr>name = Some ''Foo'', count = Some 3, obtained = Some True\<rparr>]
   \<and> (0::nat) < length [\<lparr>name = Some ''Foo'', count = Some 3, obtained = Some True\<rparr>]
   \<and> obtained ([\<lparr>name = Some ''Foo'', count = Some 3, obtained = Some True\<rparr>] ! 0) = Some True
   \<and> trackers (fst (create_and_add_tab ''Untitled''
        (Some \<lparr>doc_tab_name = None, doc_trackers = Some [\<lparr>name = Some ''Foo'', count = Some 3, obtained = Some True\<rparr>]\<rparr>)
        \<lparr>tabs = [], selected = None\<rparr>)) ! 0
      = mark_obtained (PokemonTracker_init ''Foo'' 3 False)"
  using load_locks_obtained [of "\<lparr>doc_tab_name = None, doc_trackers = Some [\<lparr>name = Some ''Foo'', count = Some 3, obtained = Some True\<rparr>]\<rparr>"
      "[\<lparr>name = Some ''Foo'', count = Some 3, obtained = Some True\<rparr>]" 0 "''Untitled''" "\<lparr>tabs = [], selected = None\<rparr>"]
  by (simp add: dict_get_def)

section \<open>Loading the save directory at startup\<close>

lemma startup_load_tabs:
  "tabs (fst (foldl startup_load (app, failed) dir)) =
     tabs app @
       [spec_deserialize (case doc_tab_name d of None \<Rightarrow> ''Error Loading'' | Some n \<Rightarrow> n) d.
          (f, Some d) \<leftarrow> dir, endswith f ''.json'']"
proof (induction dir arbitrary: app failed)
  case Nil
  show ?case by simp
next
  case (Cons entry dir)
  obtain f content where entry: "entry = (f, content)" by (cases entry)
  show ?case
  proof (cases "endswith f ''.json''")
    case False
    then show ?thesis
      using Cons.IH [of app failed] by (simp add: entry startup_load_def split: option.splits)
  next
    case True
    show ?thesis
    proof (cases content)
      case None
      then show ?thesis
        using True Cons.IH [of app "failed @ [os_path_join SAVE_DIRECTORY f]"]
        by (simp add: entry startup_load_def Let_def)
    next
      case (Some d)
      let ?tab = "spec_deserialize (case doc_tab_name d of None \<Rightarrow> ''Error Loading'' | Some n \<Rightarrow> n) d"
      have step: "startup_load (app, failed) entry =
          (app\<lparr>tabs := tabs app @ [?tab], selected := Some (length (tabs app))\<rparr>, failed)"
        using True Some
        by (simp add: entry startup_load_def Let_def dict_get_def create_and_add_tab_spec)
      show ?thesis
        using True Some
          Cons.IH [of "app\<lparr>tabs := tabs app @ [?tab], selected := Some (length (tabs app))\<rparr>" failed]
        by (simp add: step) (simp add: entry)
    qed
  qed
qed

text \<open>
  C10. A document that the startup scan loads from a \<open>.json\<close> file and that has no
  \<open>tab_name\<close> becomes a tab named "Error Loading", not "Untitled"; the tabs after the
  scan are the tabs before it followed by one tab per loaded document, in directory order.
\<close>

theorem startup_names_error_loading:
  assumes "(f, Some d) \<in> set dir" "endswith f ''.json''" "doc_tab_name d = None"
  shows "spec_deserialize ''Error Loading'' d \<in> set (tabs (fst (load_all_tabs_on_startup dir app)))
    \<and> tab_name (spec_deserialize ''Error Loading'' d) = ''Error Loading''
    \<and> tab_name (spec_deserialize ''Error Loading'' d) \<noteq> ''Untitled''
    \<and> tabs (fst (load_all_tabs_on_startup dir app)) =
         tabs app @
           [spec_deserialize (case doc_tab_name d of None \<Rightarrow> ''Error Loading'' | Some n \<Rightarrow> n) d.
              (f, Some d) \<leftarrow> dir, endswith f ''.json'']"
proof -
  have all: "tabs (fst (load_all_tabs_on_startup dir app)) =
         tabs app @
           [spec_deserialize (case doc_tab_name d of None \<Rightarrow> ''Error Loading'' | Some n \<Rightarrow> n) d.
              (f, Some d) \<leftarrow> dir, endswith f ''.json'']"
    unfolding load_all_tabs_on_startup_def by (rule startup_load_tabs)
  have "spec_deserialize ''Error Loading'' d \<in>
      set [spec_deserialize (case doc_tab_name d of None \<Rightarrow> ''Error Loading'' | Some n \<Rightarrow> n) d.
              (f, Some d) \<leftarrow> dir, endswith f ''.json'']"
    using assms by (force simp: image_iff split: option.splits)
  then have "spec_deserialize ''Error Loading'' d \<in> set (tabs (fst (load_all_tabs_on_startup dir app)))"
    unfolding all by simp
  moreover have "tab_name (spec_deserialize ''Error Loading'' d) = ''Error Loading''"
    by (simp add: spec_deserialize_def)
  ultimately show ?thesis using all by simp
qed

theorem startup_names_error_loading_witness:
  "(''a.json'', Some \<lparr>doc_tab_name = None, doc_trackers = None\<rparr>)
      \<in> set [(''notes.txt'', None), (''a.json'', Some \<lparr>doc_tab_name = None, doc_trackers = None\<rparr>), (''b.json'', None)]
   \<and> endswith ''a.json'' ''.json''
   \<and> doc_tab_name \<lparr>doc_tab_name = None, doc_trackers = None\<rparr> = None
   \<and> load_all_tabs_on_startup
        [(''notes.txt'', None), (''a.json'', Some \<lparr>doc_tab_name = None, doc_trackers = None\<rparr>), (''b.json'', None)]
        \<lparr>tabs = [], selected = None\<rparr>
      = (\<lparr>tabs = [\<lparr>tab_name = ''Error Loading'', trackers = []\<rparr>], selected = Some 0\<rparr>,
         [''shiny_saves/b.json''])
   \<and> spec_deserialize ''Error Loading'' \<lparr>doc_tab_name = None, doc_trackers = None\<rparr>
       \<in> set (tabs (fst (load_all_tabs_on_startup
        [(''notes.txt'', None), (''a.json'', Some \<lparr>doc_tab_name = None, doc_trackers = None\<rparr>), (''b.json'', None)]
        \<lparr>tabs = [], selected = None\<rparr>)))"
proof -
  have a: "(''a.json'', Some \<lparr>doc_tab_name = None, doc_trackers = None\<rparr>)
      \<in> set [(''notes.txt'', None), (''a.json'', Some \<lparr>doc_tab_name = None, doc_trackers = None\<rparr>), (''b.json'', None)]"
    by simp
  have b: "endswith ''a.json'' ''.json''"
    by (simp add: endswith_def)
  have c: "doc_tab_name \<lparr>doc_tab_name = None, doc_trackers = None\<rparr> = None"
    by simp
  have d: "load_all_tabs_on_startup
        [(''notes.txt'', None), (''a.json'', Some \<lparr>doc_tab_name = None, doc_trackers = None\<rparr>), (''b.json'', None)]
        \<lparr>tabs = [], selected = None\<rparr>
      = (\<lparr>tabs = [\<lparr>tab_name = ''Error Loading'', trackers = []\<rparr>], selected = Some 0\<rparr>,
         [''shiny_saves/b.json''])"
    by code_simp
  show ?thesis
    using a b c d startup_names_error_loading [OF a b c, of "\<lparr>tabs = [], selected = None\<rparr>"]
    by blast
qed

section \<open>Saving what was loaded\<close>

text \<open>For a document of the persisted format whose locked trackers have names without a
  newline, saving the loaded tab gives the document back.\<close>

lemma get_data_init_unlocked:
  "get_data (PokemonTracker_init nm cnt False) = \<lparr>name = Some nm, count = Some cnt, obtained = Some False\<rparr>"
  by (simp add: get_data_def PokemonTracker_init_def)

lemma get_data_init_locked:
  assumes "\<forall>c \<in> set nm. c \<noteq> newline" "0 \<le> cnt"
  shows "get_data (PokemonTracker_init nm cnt True) = \<lparr>name = Some nm, count = Some cnt, obtained = Some True\<rparr>"
proof -
  have "name_var (PokemonTracker_init nm cnt False) = nm" "count_var (PokemonTracker_init nm cnt False) = cnt"
    by (simp_all add: PokemonTracker_init_def)
  then show ?thesis
    using get_data_after_lock [of "PokemonTracker_init nm cnt False"] assms
    by (simp add: init_obtained_is_mark)
qed

lemma save_after_load:
  assumes "well_formed d"
    and "\<forall>r \<in> set (the (doc_trackers d)). obtained r = Some True \<longrightarrow> newline \<notin> set (the (name r))"
  shows "tab_get_data (spec_deserialize (the (doc_tab_name d)) d) = d"
proof -
  from assms(1) obtain tn rs where tn: "doc_tab_name d = Some tn" and rs: "doc_trackers d = Some rs"
    and wf: "list_all well_formed_tracker rs"
    by (auto simp: well_formed_def split: option.splits)
  have each: "get_data (PokemonTracker_init
                   (case name r of None \<Rightarrow> ''Error'' | Some n \<Rightarrow> n)
                   (case count r of None \<Rightarrow> 0 | Some c \<Rightarrow> c)
                   (case obtained r of None \<Rightarrow> False | Some b \<Rightarrow> b)) = r"
    if r: "r \<in> set rs" for r
  proof -
    from wf r have "well_formed_tracker r" by (simp add: list_all_iff)
    then obtain n c b where f: "name r = Some n" "count r = Some c" "obtained r = Some b" "0 \<le> c"
      by (auto simp: well_formed_tracker_def split: option.splits)
    show ?thesis
    proof (cases b)
      case False
      with f show ?thesis by (cases r) (simp add: get_data_init_unlocked)
    next
      case True
      with assms(2) rs r f have "\<forall>ch \<in> set n. ch \<noteq> newline" by auto
      with True f show ?thesis by (cases r) (simp add: get_data_init_locked)
    qed
  qed
  then have "map get_data (trackers (spec_deserialize tn d)) = rs"
    by (simp add: spec_deserialize_def rs map_idI)
  then show ?thesis
    by (cases d) (use tn rs in \<open>simp add: tab_get_data_def spec_deserialize_def\<close>)
qed

lemma load_then_save:
  assumes "well_formed d"
    and "\<forall>r \<in> set (the (doc_trackers d)). obtained r = Some True \<longrightarrow> newline \<notin> set (the (name r))"
    and "index_of_tab (the (doc_tab_name d)) (tabs app) = None"
  shows "\<exists>tab app'. load_tab_from_file (Some (Some d)) app = (Loaded tab, app') \<and> tab_get_data tab = d"
proof -
  from assms(1) obtain tn where tn: "doc_tab_name d = Some tn"
    by (auto simp: well_formed_def)
  have "load_tab_from_file (Some (Some d)) app =
      (Loaded (spec_deserialize tn d),
       app\<lparr>tabs := tabs app @ [spec_deserialize tn d], selected := Some (length (tabs app))\<rparr>)"
    using assms(3) tn
    by (simp add: load_tab_from_file_def dict_get_def create_and_add_tab_spec Let_def)
  moreover have "tab_get_data (spec_deserialize tn d) = d"
    using save_after_load [OF assms(1,2)] tn by simp
  ultimately show ?thesis by blast
qed

text \<open>
  C2. Saving a loaded document does not always give the document back: a document of the
  persisted format with one obtained tracker named \<open>a\<newline>b\<close>, a name in which the pattern does
  not occur, is saved with the name "Unknown".
\<close>

theorem roundtrip_loses_name:
  "well_formed \<lparr>doc_tab_name = Some ''Kanto'',
                doc_trackers = Some [\<lparr>name = Some [CHR ''a'', newline, CHR ''b''], count = Some 0,
                                       obtained = Some True\<rparr>]\<rparr>
   \<and> \<not> matches_announcement [CHR ''a'', newline, CHR ''b'']
   \<and> (case load_tab_from_file
        (Some (Some \<lparr>doc_tab_name = Some ''Kanto'',
                      doc_trackers = Some [\<lparr>name = Some [CHR ''a'', newline, CHR ''b''],
                                             count = Some 0, obtained = Some True\<rparr>]\<rparr>))
        \<lparr>tabs = [], selected = None\<rparr> of
        (Loaded tab, app) \<Rightarrow>
           tab_get_data tab =
             \<lparr>doc_tab_name = Some ''Kanto'',
              doc_trackers = Some [\<lparr>name = Some ''Unknown'', count = Some 0, obtained = Some True\<rparr>]\<rparr>
           \<and> tab_get_data tab \<noteq>
             \<lparr>doc_tab_name = Some ''Kanto'',
              doc_trackers = Some [\<lparr>name = Some [CHR ''a'', newline, CHR ''b''], count = Some 0,
                                     obtained = Some True\<rparr>]\<rparr>
      | _ \<Rightarrow> False)"
  by code_simp

end
